theory Spec2Isabelle
  imports Main "HOL-Library.Word"
begin

section \<open>JavaScript values of the client code\<close>

text \<open>
  A JavaScript string is a sequence of UTF-16 code units; \<open>length\<close>, \<open>slice\<close> and
  \<open>split\<close> count code units. The commercial at sign is code unit 64.
\<close>

type_synonym js_string = "16 word list"

definition js_of :: "string \<Rightarrow> js_string" where
  "js_of s = map (\<lambda>c. of_nat (of_char c)) s"

definition at_sign :: "16 word" where
  "at_sign = 64"

datatype js_error = TypeError

text \<open>
  \<open>xs.slice(start, stop)\<close> of a string or an array: a negative index counts from the
  end, both indices are clamped to the length, and an empty range gives the empty value.
\<close>

definition slice :: "'a list \<Rightarrow> int \<Rightarrow> int \<Rightarrow> 'a list" where
  "slice xs start stop =
     (let n = int (length xs);
          lo = (if start < 0 then max (n + start) 0 else min start n);
          hi = (if stop < 0 then max (n + stop) 0 else min stop n)
      in take (nat (hi - lo)) (drop (nat lo) xs))"

text \<open>
  \<open>s.split(sep)\<close> for a separator of one code unit: the pieces between the occurrences
  of the separator, in order; the empty string gives one empty piece.
\<close>

fun split_str :: "'a \<Rightarrow> 'a list \<Rightarrow> 'a list list" where
  "split_str sep [] = [[]]"
| "split_str sep (c # cs) =
     (if c = sep then [] # split_str sep cs
      else (case split_str sep cs of
              [] \<Rightarrow> [[c]]
            | p # ps \<Rightarrow> (c # p) # ps))"

text \<open>\<open>arr[0]\<close> is \<open>undefined\<close> on an empty array; a method call on it throws.\<close>

definition index0 :: "'a list \<Rightarrow> js_error + 'a" where
  "index0 arr = (case arr of [] \<Rightarrow> Inl TypeError | x # _ \<Rightarrow> Inr x)"

text \<open>\<open>n.toString()\<close> of an integer below \<open>10^21\<close> in absolute value: its decimal digits.\<close>

fun digits :: "nat \<Rightarrow> js_string" where
  "digits n = (if n < 10 then [of_nat (48 + n)] else digits (n div 10) @ [of_nat (48 + n mod 10)])"

declare digits.simps [simp del]

definition toString :: "int \<Rightarrow> js_string" where
  "toString n = (if n < 0 then 45 # digits (nat (- n)) else digits (nat n))"

section \<open>DashboardHeader.tsx: getInitials\<close>

text \<open>
  \<^verbatim>\<open>const getInitials = (email: string) => {
    return email.split("@")[0].slice(0, 2).toUpperCase();
  };\<close>
  \<open>toUpperCase\<close> is the engine's Unicode upper-casing; it is a parameter of the model,
  so every statement below holds for whatever it does to the string it is given.
\<close>

definition getInitials :: "(js_string \<Rightarrow> js_string) \<Rightarrow> js_string \<Rightarrow> js_error + js_string" where
  "getInitials toUpperCase email =
     (case index0 (split_str at_sign email) of
        Inl e \<Rightarrow> Inl e
      | Inr local \<Rightarrow> Inr (toUpperCase (slice local 0 2)))"

text \<open>An upper-casing of the ASCII letters, for running the model on ASCII addresses.\<close>

definition ascii_upper :: "js_string \<Rightarrow> js_string" where
  "ascii_upper s = map (\<lambda>c. if 97 \<le> c \<and> c \<le> 122 then c - 32 else c) s"

section \<open>AppContext.tsx: the application state and its reducer\<close>

text \<open>
  Field names are the source's. Where two interfaces share a field name the fields carry
  a suffix: \<open>_n\<close> for \<open>Notification\<close>, \<open>_p\<close> for \<open>Profile\<close>. A \<open>Date\<close> is its
  number of milliseconds since the epoch. The Supabase \<open>User\<close> is opaque to the reducer
  and is a type parameter.
\<close>

datatype theme = Light | Dark | System

datatype export_format = Mp4 | Mov | Avi

datatype quality_level = Low | Medium | High

datatype notification_type = Info | Success | Warning | Error

record Profile =
  id_p :: js_string
  email_p :: js_string
  role_p :: js_string
  status_p :: js_string
  luma_api_key_p :: "js_string option"
  created_at_p :: js_string
  updated_at_p :: js_string

record UserPreferences =
  autoSave :: bool
  emailNotifications :: bool
  keyboardShortcuts :: bool
  defaultShotType :: js_string
  exportFormat :: export_format
  quality :: quality_level

text \<open>\<open>Partial<UserPreferences>\<close>: every field may be absent.\<close>

record PartialUserPreferences =
  autoSave_opt :: "bool option"
  emailNotifications_opt :: "bool option"
  keyboardShortcuts_opt :: "bool option"
  defaultShotType_opt :: "js_string option"
  exportFormat_opt :: "export_format option"
  quality_opt :: "quality_level option"

record Notification =
  id_n :: js_string
  type_n :: notification_type
  title :: js_string
  message :: js_string
  timestamp :: int
  read :: bool

record 'u AppState =
  user :: "'u option"
  profile :: "Profile option"
  loading :: bool
  theme :: theme
  sidebarOpen :: bool
  notifications :: "Notification list"
  preferences :: UserPreferences

text \<open>
  The payload of \<open>ADD_NOTIFICATION\<close> is \<open>Omit<Notification, 'id' | 'timestamp' | 'read'>\<close>:
  the type, the title and the message.
\<close>

datatype 'u AppAction =
    SET_USER "'u option"
  | SET_PROFILE "Profile option"
  | SET_LOADING bool
  | SET_THEME theme
  | TOGGLE_SIDEBAR
  | ADD_NOTIFICATION notification_type js_string js_string
  | MARK_NOTIFICATION_READ js_string
  | CLEAR_NOTIFICATIONS
  | UPDATE_PREFERENCES PartialUserPreferences
  | RESET_STATE

text \<open>
  The reducer reads the clock twice when it adds a notification: \<open>Date.now()\<close> for the
  id and \<open>new Date()\<close> for the timestamp. The two readings are an input of the model.
\<close>

record clock =
  date_now :: int
  new_date :: int

definition initialState :: "'u AppState" where
  "initialState =
     \<lparr> user = None, profile = None, loading = True, theme = System, sidebarOpen = False,
       notifications = [],
       preferences = \<lparr> autoSave = True, emailNotifications = True, keyboardShortcuts = True,
                       defaultShotType = js_of ''wide'', exportFormat = Mp4, quality = Medium \<rparr> \<rparr>"

text \<open>\<open>{ ...state.preferences, ...action.payload }\<close>: a field of the payload that is present wins.\<close>

definition merge_preferences :: "UserPreferences \<Rightarrow> PartialUserPreferences \<Rightarrow> UserPreferences" where
  "merge_preferences p q =
     \<lparr> autoSave = (case autoSave_opt q of None \<Rightarrow> autoSave p | Some v \<Rightarrow> v),
       emailNotifications = (case emailNotifications_opt q of None \<Rightarrow> emailNotifications p | Some v \<Rightarrow> v),
       keyboardShortcuts = (case keyboardShortcuts_opt q of None \<Rightarrow> keyboardShortcuts p | Some v \<Rightarrow> v),
       defaultShotType = (case defaultShotType_opt q of None \<Rightarrow> defaultShotType p | Some v \<Rightarrow> v),
       exportFormat = (case exportFormat_opt q of None \<Rightarrow> exportFormat p | Some v \<Rightarrow> v),
       quality = (case quality_opt q of None \<Rightarrow> quality p | Some v \<Rightarrow> v) \<rparr>"

fun appReducer :: "clock \<Rightarrow> 'u AppState \<Rightarrow> 'u AppAction \<Rightarrow> 'u AppState" where
  "appReducer c state (SET_USER payload) = state\<lparr>user := payload\<rparr>"
| "appReducer c state (SET_PROFILE payload) = state\<lparr>profile := payload\<rparr>"
| "appReducer c state (SET_LOADING payload) = state\<lparr>loading := payload\<rparr>"
| "appReducer c state (SET_THEME payload) = state\<lparr>theme := payload\<rparr>"
| "appReducer c state TOGGLE_SIDEBAR = state\<lparr>sidebarOpen := \<not> sidebarOpen state\<rparr>"
| "appReducer c state (ADD_NOTIFICATION ty ti msg) =
     (let newNotification =
            \<lparr> id_n = toString (date_now c), type_n = ty, title = ti, message = msg,
              timestamp = new_date c, read = False \<rparr>
      in state\<lparr>notifications := slice (newNotification # notifications state) 0 50\<rparr>)"
| "appReducer c state (MARK_NOTIFICATION_READ payload) =
     state\<lparr>notifications :=
       map (\<lambda>notification.
              if id_n notification = payload then notification\<lparr>read := True\<rparr> else notification)
           (notifications state)\<rparr>"
| "appReducer c state CLEAR_NOTIFICATIONS = state\<lparr>notifications := []\<rparr>"
| "appReducer c state (UPDATE_PREFERENCES payload) =
     state\<lparr>preferences := merge_preferences (preferences state) payload\<rparr>"
| "appReducer c state RESET_STATE = initialState"

text \<open>A sequence of dispatched actions, each with the clock readings of its moment.\<close>

definition dispatch_all :: "'u AppState \<Rightarrow> (clock \<times> 'u AppAction) list \<Rightarrow> 'u AppState" where
  "dispatch_all state cas = foldl (\<lambda>s ca. appReducer (fst ca) s (snd ca)) state cas"

section \<open>AppContext.tsx: the settings page and handleUpdateApiKey\<close>

text \<open>
  \<open>s.trim()\<close> removes white space and line terminators from both ends: the code units
  9 to 13, 32, 160, 5760, 8192 to 8202, 8232, 8233, 8239, 8287, 12288 and 65279.
\<close>

definition is_white_space :: "16 word \<Rightarrow> bool" where
  "is_white_space c \<longleftrightarrow>
     (9 \<le> c \<and> c \<le> 13) \<or> c = 32 \<or> c = 160 \<or> c = 5760 \<or> (8192 \<le> c \<and> c \<le> 8202)
     \<or> c = 8232 \<or> c = 8233 \<or> c = 8239 \<or> c = 8287 \<or> c = 12288 \<or> c = 65279"

definition trim :: "js_string \<Rightarrow> js_string" where
  "trim s = rev (dropWhile is_white_space (rev (dropWhile is_white_space s)))"

text \<open>
  \<^verbatim>\<open>const handleUpdateApiKey = async () => {
    if (!formData.lumaApiKey.trim()) {
      toast.error("API key is required");
      return;
    }
    setSaving(true);
    try {
      const { error } = await supabase
        .from("profiles")
        .update({ luma_api_key: formData.lumaApiKey,
                  updated_at: new Date().toISOString() })
        .eq("id", user?.id);
      if (error) {
        toast.error("Failed to update API key");
        return;
      }
      toast.success("API key updated successfully");
      setProfile(prev => prev ? { ...prev, luma_api_key: formData.lumaApiKey } : null);
    } catch (error) {
      toast.error("An error occurred");
    } finally {
      setSaving(false);
    }
  };\<close>
  The state of the page is the signed-in user's id (\<open>user?.id\<close>, here \<open>user_id_st\<close>),
  the loaded profile (\<open>profile_st\<close>), the saving flag and the key typed into the form
  (\<open>formData.lumaApiKey\<close>); the toasts shown are collected in order. The profiles
  table is the list of its rows as the client reads them (the \<open>Profile\<close> interface).
  What the request to the server does is an input: it stores the update, it answers
  with an error, or the call throws.
\<close>

datatype toast = ToastError js_string | ToastSuccess js_string

datatype request_outcome = Stored | AnswersError | Throws

record settings_state =
  user_id_st :: "js_string option"
  profile_st :: "Profile option"
  saving :: bool
  lumaApiKey :: js_string
  toasts :: "toast list"

text \<open>\<open>.update(values).eq("id", id)\<close>: the rows whose id is the given one get the values.\<close>

definition update_profiles ::
  "Profile list \<Rightarrow> js_string option \<Rightarrow> js_string \<Rightarrow> js_string \<Rightarrow> Profile list" where
  "update_profiles tbl uid key stamp =
     map (\<lambda>row. if Some (id_p row) = uid
                 then row\<lparr>luma_api_key_p := Some key, updated_at_p := stamp\<rparr>
                 else row) tbl"

definition handleUpdateApiKey ::
  "request_outcome \<Rightarrow> js_string \<Rightarrow> Profile list \<times> settings_state \<Rightarrow> Profile list \<times> settings_state" where
  "handleUpdateApiKey outcome stamp ts =
     (let tbl = fst ts; st = snd ts in
      if trim (lumaApiKey st) = []
        then (tbl, st\<lparr>toasts := toasts st @ [ToastError (js_of ''API key is required'')]\<rparr>)
      else
        (case outcome of
           Throws \<Rightarrow>
             (tbl, st\<lparr>toasts := toasts st @ [ToastError (js_of ''An error occurred'')],
                      saving := False\<rparr>)
         | AnswersError \<Rightarrow>
             (tbl, st\<lparr>toasts := toasts st @ [ToastError (js_of ''Failed to update API key'')],
                      saving := False\<rparr>)
         | Stored \<Rightarrow>
             (update_profiles tbl (user_id_st st) (lumaApiKey st) stamp,
              st\<lparr>toasts := toasts st @ [ToastSuccess (js_of ''API key updated successfully'')],
                  profile_st := (case profile_st st of
                                   None \<Rightarrow> None
                                 | Some prev \<Rightarrow> Some (prev\<lparr>luma_api_key_p := Some (lumaApiKey st)\<rparr>)),
                  saving := False\<rparr>)))"

text \<open>A signed-in user with a stored profile and a key typed into the form.\<close>

definition sample_profile :: Profile where
  "sample_profile =
     \<lparr> id_p = js_of ''u1'', email_p = js_of ''jo@example.org'', role_p = js_of ''user'',
       status_p = js_of ''approved'', luma_api_key_p = None,
       created_at_p = js_of ''2025-01-01T00:00:00.000Z'',
       updated_at_p = js_of ''2025-01-01T00:00:00.000Z'' \<rparr>"

definition sample_settings :: settings_state where
  "sample_settings =
     \<lparr> user_id_st = Some (js_of ''u1''), profile_st = Some sample_profile, saving = False,
       lumaApiKey = js_of ''luma-key-123'', toasts = [] \<rparr>"

section \<open>README.md: the database schema\<close>

text \<open>
  A table is the list of its rows in the order of insertion. A nullable column is an
  \<open>option\<close>, with \<open>None\<close> for NULL. The columns of \<open>scenes\<close> keep their names, but
  \<open>id\<close> is \<open>id_s\<close>; the columns of \<open>profiles\<close> carry the suffix \<open>_pr\<close> and those of
  \<open>scene_versions\<close> the suffix \<open>_v\<close>. A \<open>TIMESTAMP WITH TIME ZONE\<close> is a number of
  microseconds. The tables \<open>projects\<close> and \<open>shot_types\<close> are outside the model: the rows
  that a scene refers to there are taken to exist.
\<close>

type_synonym uuid = string

type_synonym timestamptz = int

datatype user_role = RoleUser | RoleAdmin

datatype user_status = Pending | Approved | Rejected

datatype scene_status = SceneQueued | SceneProcessing | SceneReady | SceneError

datatype luma_status = LumaPending | LumaProcessing | LumaCompleted | LumaFailed

datatype error =
    NumericValueOutOfRange
  | UniqueViolation
  | ForeignKeyViolation
  | InsufficientPrivilege
  | ConflictError
  | NotFoundError
  | NoSuchRequest
  | NotAllocated

record profiles_row =
  id_pr :: uuid
  email_pr :: string
  role_pr :: "user_role option"
  status_pr :: "user_status option"
  api_key_hash_pr :: "string option"
  created_at_pr :: "timestamptz option"
  updated_at_pr :: "timestamptz option"

record scenes_row =
  id_s :: uuid
  user_id :: uuid
  project_id :: uuid
  folder :: string
  start_key :: string
  end_key :: "string option"
  shot_type_id :: uuid
  ordinal :: int
  version :: "int option"
  start_frame_signed_url :: "string option"
  end_frame_signed_url :: "string option"
  signed_url_expires_at :: "timestamptz option"
  luma_job_id :: "string option"
  luma_status :: "luma_status option"
  luma_error :: "string option"
  status :: "scene_status option"
  deleted_at :: "timestamptz option"
  created_at :: "timestamptz option"
  updated_at :: "timestamptz option"

record scene_versions_row =
  id_v :: uuid
  scene_id_v :: uuid
  version_v :: int
  video_url_v :: "string option"
  render_meta_v :: "string option"
  created_at_v :: "timestamptz option"

record database =
  profiles :: "profiles_row list"
  scenes :: "scenes_row list"
  scene_versions :: "scene_versions_row list"

subsection \<open>INTEGER arithmetic and aggregates\<close>

text \<open>
  An \<open>INTEGER\<close> has 32 bits. PostgreSQL raises \<open>integer out of range\<close> when a sum
  leaves the range; it does not wrap.
\<close>

definition int4 :: "int \<Rightarrow> bool" where
  "int4 x \<longleftrightarrow> - 2147483648 \<le> x \<and> x \<le> 2147483647"

definition int4_add :: "int \<Rightarrow> int \<Rightarrow> error + int" where
  "int4_add a b = (if int4 (a + b) then Inr (a + b) else Inl NumericValueOutOfRange)"

text \<open>\<open>MAX\<close> over no rows is NULL; \<open>COALESCE\<close> replaces NULL.\<close>

fun sql_max :: "int list \<Rightarrow> int option" where
  "sql_max [] = None"
| "sql_max (x # xs) = Some (fold max xs x)"

definition coalesce :: "'a option \<Rightarrow> 'a \<Rightarrow> 'a" where
  "coalesce v d = (case v of None \<Rightarrow> d | Some x \<Rightarrow> x)"

subsection \<open>next_scene_ordinal\<close>

text \<open>
  \<^verbatim>\<open>SELECT COALESCE(MAX(ordinal), 0) + 1 INTO next_ordinal
  FROM public.scenes WHERE project_id = p_project_id;
  RETURN next_ordinal;\<close>
  The function is \<open>SECURITY DEFINER\<close>: it reads every row of the table. It reads only,
  and its \<open>WHERE\<close> clause names no other column than \<open>project_id\<close>.
\<close>

definition next_scene_ordinal :: "scenes_row list \<Rightarrow> uuid \<Rightarrow> error + int" where
  "next_scene_ordinal tbl p_project_id =
     int4_add (coalesce (sql_max (map ordinal [r \<leftarrow> tbl. project_id r = p_project_id])) 0) 1"

text \<open>
  The ordinal as the specification words it: the maximum is taken over the scenes of the
  project that are not soft-deleted.
\<close>

definition next_scene_ordinal_spec :: "scenes_row list \<Rightarrow> uuid \<Rightarrow> error + int" where
  "next_scene_ordinal_spec tbl p_project_id =
     int4_add (coalesce (sql_max (map ordinal
        [r \<leftarrow> tbl. project_id r = p_project_id \<and> deleted_at r = None])) 0) 1"

text \<open>The greatest ordinal among all rows of a project, 0 when it has none.\<close>

definition max_ordinal :: "scenes_row list \<Rightarrow> uuid \<Rightarrow> int" where
  "max_ordinal tbl p = coalesce (sql_max (map ordinal [r \<leftarrow> tbl. project_id r = p])) 0"

text \<open>A row for running the model: a scene of a project with an ordinal and a deletion mark.\<close>

definition sample_scene :: "uuid \<Rightarrow> uuid \<Rightarrow> int \<Rightarrow> timestamptz option \<Rightarrow> scenes_row" where
  "sample_scene i p n d =
     \<lparr> id_s = i, user_id = ''u1'', project_id = p, folder = ''f'', start_key = ''a.jpeg'',
       end_key = None, shot_type_id = ''t1'', ordinal = n, version = Some 1,
       start_frame_signed_url = None, end_frame_signed_url = None,
       signed_url_expires_at = None, luma_job_id = None, luma_status = Some LumaPending,
       luma_error = None, status = Some SceneQueued, deleted_at = d,
       created_at = Some 0, updated_at = Some 0 \<rparr>"

subsection \<open>Writing to scenes\<close>

text \<open>
  The constraints of the table: \<open>id\<close> is the primary key, \<open>user_id\<close> refers to
  \<open>profiles(id)\<close>, \<open>ordinal\<close> and \<open>version\<close> are INTEGERs. There is no uniqueness
  constraint on \<open>(project_id, ordinal)\<close>.
\<close>

definition insert_scenes :: "database \<Rightarrow> scenes_row \<Rightarrow> error + database" where
  "insert_scenes db r =
     (if \<not> int4 (ordinal r) \<or> \<not> (case version r of None \<Rightarrow> True | Some v \<Rightarrow> int4 v)
        then Inl NumericValueOutOfRange
      else if id_s r \<in> id_s ` set (scenes db) then Inl UniqueViolation
      else if user_id r \<notin> id_pr ` set (profiles db) then Inl ForeignKeyViolation
      else Inr (db\<lparr>scenes := scenes db @ [r]\<rparr>))"

text \<open>
  What a caller supplies for a new scene, with the two values the database draws itself:
  the result of \<open>gen_random_uuid()\<close> and of \<open>NOW()\<close>.
\<close>

record scene_request =
  req_user_id :: uuid
  req_project_id :: uuid
  req_folder :: string
  req_start_key :: string
  req_end_key :: "string option"
  req_shot_type_id :: uuid
  req_new_id :: uuid
  req_now :: timestamptz

text \<open>
  The row stored by an \<open>INSERT\<close> that names \<open>user_id\<close>, \<open>project_id\<close>, \<open>folder\<close>,
  \<open>start_key\<close>, \<open>end_key\<close>, \<open>shot_type_id\<close> and \<open>ordinal\<close>: every other column takes
  the \<open>DEFAULT\<close> of the schema (\<open>version\<close> 1, \<open>luma_status\<close> pending, \<open>status\<close> queued,
  the id and the two timestamps drawn by the database), or NULL where it declares none.
\<close>

definition default_scene :: "scene_request \<Rightarrow> int \<Rightarrow> scenes_row" where
  "default_scene q n =
     \<lparr> id_s = req_new_id q, user_id = req_user_id q, project_id = req_project_id q,
       folder = req_folder q, start_key = req_start_key q, end_key = req_end_key q,
       shot_type_id = req_shot_type_id q, ordinal = n, version = Some 1,
       start_frame_signed_url = None, end_frame_signed_url = None,
       signed_url_expires_at = None, luma_job_id = None, luma_status = Some LumaPending,
       luma_error = None, status = Some SceneQueued, deleted_at = None,
       created_at = Some (req_now q), updated_at = Some (req_now q) \<rparr>"

text \<open>
  Modelled from the spec: the create-scene function (\<open>luma-create-scene\<close>) is not among
  the sources. The specification has it allocate the ordinal, then create the scene row
  with status queued, version 1 and no external job; the job submission that follows is
  not part of this step. The ordinal comes from \<open>next_scene_ordinal\<close> and the row is
  stored with the schema's defaults.
\<close>

definition create_scene :: "database \<Rightarrow> scene_request \<Rightarrow> error + database" where
  "create_scene db q =
     (case next_scene_ordinal (scenes db) (req_project_id q) of
        Inl e \<Rightarrow> Inl e
      | Inr n \<Rightarrow> insert_scenes db (default_scene q n))"

subsection \<open>Concurrent create-scene requests\<close>

text \<open>
  Modelled from the spec: the create-scene function is not among the sources. A request
  takes two steps, the call of \<open>next_scene_ordinal\<close> and the \<open>INSERT\<close> of the row with
  the ordinal it got; \<open>next_scene_ordinal\<close> takes no lock and the table has no constraint
  on \<open>(project_id, ordinal)\<close>, so the steps of several requests may interleave in any
  order that keeps each request's allocation before its insert. A schedule lists the
  steps by the index of the request; the configuration holds the database and the
  ordinal each request has been given.
\<close>

datatype event = Allocate nat | Insert nat

type_synonym conf = "database \<times> (nat \<rightharpoonup> int)"

fun exec_event :: "scene_request list \<Rightarrow> conf \<Rightarrow> event \<Rightarrow> error + conf" where
  "exec_event reqs (db, al) (Allocate k) =
     (if k < length reqs then
        (case next_scene_ordinal (scenes db) (req_project_id (reqs ! k)) of
           Inl e \<Rightarrow> Inl e
         | Inr n \<Rightarrow> Inr (db, al(k \<mapsto> n)))
      else Inl NoSuchRequest)"
| "exec_event reqs (db, al) (Insert k) =
     (if k < length reqs then
        (case al k of
           None \<Rightarrow> Inl NotAllocated
         | Some n \<Rightarrow>
             (case insert_scenes db (default_scene (reqs ! k) n) of
                Inl e \<Rightarrow> Inl e
              | Inr db' \<Rightarrow> Inr (db', al)))
      else Inl NoSuchRequest)"

fun run_schedule :: "scene_request list \<Rightarrow> conf \<Rightarrow> event list \<Rightarrow> error + conf" where
  "run_schedule reqs c [] = Inr c"
| "run_schedule reqs c (e # es) =
     (case exec_event reqs c e of
        Inl err \<Rightarrow> Inl err
      | Inr c' \<Rightarrow> run_schedule reqs c' es)"

text \<open>The schedule that runs the requests \<open>ks\<close> one after the other.\<close>

definition serial :: "nat list \<Rightarrow> event list" where
  "serial ks = concat (map (\<lambda>k. [Allocate k, Insert k]) ks)"

text \<open>The ordinals of the rows a run has added to the table, in the order of insertion.\<close>

definition new_ordinals :: "database \<Rightarrow> database \<Rightarrow> int list" where
  "new_ordinals db db' = map ordinal (drop (length (scenes db)) (scenes db'))"

text \<open>
  The outcome of a schedule started with no ordinal allocated: the ordinals of the scenes
  it created, or the error that stopped it.
\<close>

definition schedule_ordinals :: "scene_request list \<Rightarrow> database \<Rightarrow> event list \<Rightarrow> error + int list" where
  "schedule_ordinals reqs db es =
     (case run_schedule reqs (db, Map.empty) es of
        Inl e \<Rightarrow> Inl e
      | Inr c \<Rightarrow> Inr (new_ordinals db (fst c)))"

text \<open>A database with one approved profile and no scene, and requests for running the model.\<close>

definition sample_database :: database where
  "sample_database =
     \<lparr> profiles = [\<lparr> id_pr = ''u1'', email_pr = ''jo@example.org'', role_pr = Some RoleUser,
                       status_pr = Some Approved, api_key_hash_pr = None,
                       created_at_pr = Some 0, updated_at_pr = Some 0 \<rparr>],
       scenes = [], scene_versions = [] \<rparr>"

definition sample_request :: "uuid \<Rightarrow> uuid \<Rightarrow> scene_request" where
  "sample_request i p =
     \<lparr> req_user_id = ''u1'', req_project_id = p, req_folder = ''f'',
       req_start_key = ''a.jpeg'', req_end_key = Some ''b.jpeg'', req_shot_type_id = ''t1'',
       req_new_id = i, req_now = 10 \<rparr>"

subsection \<open>scene_versions and the version store\<close>

text \<open>
  The constraints of \<open>scene_versions\<close>: \<open>id\<close> is the primary key, \<open>scene_id\<close> refers to
  \<open>scenes(id)\<close> with \<open>ON DELETE CASCADE\<close>, \<open>version\<close> is an INTEGER, and
  \<open>(scene_id, version)\<close> is unique.
\<close>

definition versions_of :: "database \<Rightarrow> uuid \<Rightarrow> scene_versions_row list" where
  "versions_of db sid = [v \<leftarrow> scene_versions db. scene_id_v v = sid]"

definition insert_scene_versions :: "database \<Rightarrow> scene_versions_row \<Rightarrow> error + database" where
  "insert_scene_versions db v =
     (if \<not> int4 (version_v v) then Inl NumericValueOutOfRange
      else if id_v v \<in> id_v ` set (scene_versions db) then Inl UniqueViolation
      else if scene_id_v v \<notin> id_s ` set (scenes db) then Inl ForeignKeyViolation
      else if version_v v \<in> version_v ` set (versions_of db (scene_id_v v)) then Inl UniqueViolation
      else Inr (db\<lparr>scene_versions := scene_versions db @ [v]\<rparr>))"

text \<open>Deleting a scene row by id, with the cascade to its versions.\<close>

definition delete_scene :: "database \<Rightarrow> uuid \<Rightarrow> error + database" where
  "delete_scene db sid =
     (if sid \<notin> id_s ` set (scenes db) then Inl NotFoundError
      else Inr (db\<lparr>scenes := [r \<leftarrow> scenes db. id_s r \<noteq> sid],
                   scene_versions := [v \<leftarrow> scene_versions db. scene_id_v v \<noteq> sid]\<rparr>))"

text \<open>
  Modelled from the spec: the version store is not among the sources. The specification
  gives its one operation: \<open>append(sceneId, expectedPriorVersion, mediaRef, meta)\<close>
  atomically checks that the scene's current version count equals
  \<open>expectedPriorVersion\<close>, inserts a new version record at \<open>expectedPriorVersion + 1\<close>,
  advances the scene's version counter in the same atomic unit, and returns the version
  number; it rejects with a conflict error if the expected prior version does not match.
  The version count is the number of version records of the scene. An unknown scene is
  a not-found error. The id of the new record and the time are inputs.
\<close>

definition version_append ::
  "database \<Rightarrow> uuid \<Rightarrow> int \<Rightarrow> string \<Rightarrow> string \<Rightarrow> uuid \<Rightarrow> timestamptz \<Rightarrow> error + database \<times> int" where
  "version_append db sceneId expectedPriorVersion mediaRef meta new_id now =
     (if sceneId \<notin> id_s ` set (scenes db) then Inl NotFoundError
      else if int (length (versions_of db sceneId)) \<noteq> expectedPriorVersion then Inl ConflictError
      else
        (case insert_scene_versions db
                \<lparr> id_v = new_id, scene_id_v = sceneId, version_v = expectedPriorVersion + 1,
                  video_url_v = Some mediaRef, render_meta_v = Some meta,
                  created_at_v = Some now \<rparr> of
           Inl e \<Rightarrow> Inl e
         | Inr db1 \<Rightarrow>
             Inr (db1\<lparr>scenes :=
                    map (\<lambda>r. if id_s r = sceneId
                              then r\<lparr>version := Some (expectedPriorVersion + 1),
                                     updated_at := Some now\<rparr>
                              else r) (scenes db1)\<rparr>,
                  expectedPriorVersion + 1)))"

text \<open>
  Modelled from the spec: the other writers of a scene row are not among the sources.
  The specification lets the job tracker write the status and the external-job fields,
  and a delete or a restore write the soft-delete timestamp; the version number is
  written by the version store alone. \<open>write_scene\<close> is any such write: of the row
  that \<open>f\<close> proposes, only these fields are taken.
\<close>

definition write_scene ::
  "database \<Rightarrow> uuid \<Rightarrow> (scenes_row \<Rightarrow> scenes_row) \<Rightarrow> timestamptz \<Rightarrow> error + database" where
  "write_scene db sid f now =
     (if sid \<notin> id_s ` set (scenes db) then Inl NotFoundError
      else Inr (db\<lparr>scenes :=
             map (\<lambda>r. if id_s r = sid
                       then r\<lparr>luma_job_id := luma_job_id (f r), luma_status := luma_status (f r),
                              luma_error := luma_error (f r), status := status (f r),
                              deleted_at := deleted_at (f r), updated_at := Some now\<rparr>
                       else r) (scenes db)\<rparr>))"

text \<open>
  The operations on the store. An operation that fails leaves the database as it was.
\<close>

datatype store_op =
    CreateScene scene_request
  | AppendVersion uuid int string string uuid timestamptz
  | WriteScene uuid "scenes_row \<Rightarrow> scenes_row" timestamptz
  | DeleteScene uuid

fun step :: "database \<Rightarrow> store_op \<Rightarrow> error + database" where
  "step db (CreateScene q) = create_scene db q"
| "step db (AppendVersion sid e m meta i t) =
     (case version_append db sid e m meta i t of Inl err \<Rightarrow> Inl err | Inr res \<Rightarrow> Inr (fst res))"
| "step db (WriteScene sid f t) = write_scene db sid f t"
| "step db (DeleteScene sid) = delete_scene db sid"

definition apply_op :: "database \<Rightarrow> store_op \<Rightarrow> database" where
  "apply_op db op = (case step db op of Inl err \<Rightarrow> db | Inr db' \<Rightarrow> db')"

definition run_ops :: "database \<Rightarrow> store_op list \<Rightarrow> database" where
  "run_ops db ops = foldl apply_op db ops"

text \<open>
  What the operations keep true: scene ids are unique, every version belongs to a stored
  scene, and for each scene the version numbers are \<open>1, \<dots>, k\<close> in the order of
  insertion, with the scene's counter at \<open>k\<close>, or at 1 while there is no version.
\<close>

definition store_inv :: "database \<Rightarrow> bool" where
  "store_inv db \<longleftrightarrow>
     distinct (map id_s (scenes db))
     \<and> list_all (\<lambda>v. scene_id_v v \<in> id_s ` set (scenes db)) (scene_versions db)
     \<and> list_all (\<lambda>r. map version_v (versions_of db (id_s r)) =
                        map int [1..<length (versions_of db (id_s r)) + 1]
                     \<and> version r = Some (max 1 (int (length (versions_of db (id_s r))))))
          (scenes db)"

section \<open>Properties of the client code\<close>

lemma slice_from_0: "0 \<le> k \<Longrightarrow> slice xs 0 k = take (nat k) xs"
  by (simp add: slice_def Let_def min_def)

lemma split_str_not_Nil: "split_str sep s \<noteq> []"
  by (induction s) (auto split: list.splits)

lemma hd_split_str: "hd (split_str sep s) = takeWhile (\<lambda>c. c \<noteq> sep) s"
  by (induction s) (auto split: list.splits simp: split_str_not_Nil)

lemma index0_split_str: "index0 (split_str sep s) = Inr (takeWhile (\<lambda>c. c \<noteq> sep) s)"
  using split_str_not_Nil [of sep s] hd_split_str [of sep s]
  by (cases "split_str sep s") (simp_all add: index0_def)

lemma appReducer_length_le:
  "length (notifications s) \<le> 50 \<Longrightarrow> length (notifications (appReducer c s a)) \<le> 50"
  by (cases a) (simp_all add: initialState_def slice_from_0 Let_def)

lemma dispatch_all_length_le:
  "length (notifications s) \<le> 50 \<Longrightarrow> length (notifications (dispatch_all s cas)) \<le> 50"
  unfolding dispatch_all_def
  by (induction cas arbitrary: s) (simp_all add: appReducer_length_le)

text \<open>
  C10. \<open>getInitials\<close> never throws. Its result is the upper-casing of the first two code
  units of what stands before the first at sign; without an at sign, of the first two
  code units of the whole string; and the empty string gives the upper-casing of the
  empty string, which is empty for an upper-casing that keeps the empty string.
\<close>

theorem C10_getInitials:
  "getInitials up email = Inr (up (take 2 (takeWhile (\<lambda>c. c \<noteq> at_sign) email)))
   \<and> (at_sign \<notin> set email \<longrightarrow> getInitials up email = Inr (up (take 2 email)))
   \<and> (up [] = [] \<longrightarrow> getInitials up [] = Inr [])"
proof -
  have first: "getInitials up e = Inr (up (take 2 (takeWhile (\<lambda>c. c \<noteq> at_sign) e)))" for e
    by (simp add: getInitials_def index0_split_str slice_from_0)
  have whole: "takeWhile (\<lambda>c. c \<noteq> at_sign) email = email" if "at_sign \<notin> set email"
    using that by (induction email) auto
  show ?thesis
  proof (intro conjI impI)
    show "getInitials up email = Inr (up (take 2 (takeWhile (\<lambda>c. c \<noteq> at_sign) email)))"
      by (rule first)
    show "getInitials up email = Inr (up (take 2 email))" if "at_sign \<notin> set email"
      using first [of email] whole [OF that] by simp
    show "getInitials up [] = Inr []" if "up [] = []"
      using first [of "[]"] that by simp
  qed
qed

theorem C10_getInitials_witness:
  "getInitials ascii_upper (js_of ''jo.doe@example.org'') = Inr (js_of ''JO'')
   \<and> at_sign \<notin> set (js_of ''ab'') \<and> getInitials ascii_upper (js_of ''ab'') = Inr (js_of ''AB'')
   \<and> ascii_upper [] = [] \<and> getInitials ascii_upper [] = Inr []"
  using C10_getInitials [of ascii_upper "js_of ''jo.doe@example.org''"]
        C10_getInitials [of ascii_upper "js_of ''ab''"]
        C10_getInitials [of ascii_upper "[]"]
  by (simp add: js_of_def ascii_upper_def at_sign_def)

text \<open>
  C8. From the initial state, and from any state that holds at most 50 notifications, no
  sequence of actions leaves more than 50 notifications. \<open>ADD_NOTIFICATION\<close> puts the
  new notification first, unread, with the id and the timestamp of the clock readings,
  and keeps the first 50 of the list: whatever the state before, at most 50 remain.
\<close>

theorem C8_notifications_bounded:
  "length (notifications (dispatch_all (initialState :: 'u AppState) cas)) \<le> 50
   \<and> (length (notifications s) \<le> 50 \<longrightarrow> length (notifications (dispatch_all s cas)) \<le> 50)
   \<and> notifications (appReducer c s (ADD_NOTIFICATION ty ti msg)) =
       take 50 (\<lparr> id_n = toString (date_now c), type_n = ty, title = ti, message = msg,
                   timestamp = new_date c, read = False \<rparr> # notifications s)
   \<and> length (notifications (appReducer c s (ADD_NOTIFICATION ty ti msg))) \<le> 50
   \<and> read (hd (notifications (appReducer c s (ADD_NOTIFICATION ty ti msg)))) = False"
proof (intro conjI impI)
  have "length (notifications (initialState :: 'u AppState)) \<le> 50"
    by (simp add: initialState_def)
  then show "length (notifications (dispatch_all (initialState :: 'u AppState) cas)) \<le> 50"
    by (rule dispatch_all_length_le)
  show "length (notifications (dispatch_all s cas)) \<le> 50" if "length (notifications s) \<le> 50"
    using that by (rule dispatch_all_length_le)
  show "notifications (appReducer c s (ADD_NOTIFICATION ty ti msg)) =
       take 50 (\<lparr> id_n = toString (date_now c), type_n = ty, title = ti, message = msg,
                   timestamp = new_date c, read = False \<rparr> # notifications s)"
    by (simp add: slice_from_0 Let_def)
  show "length (notifications (appReducer c s (ADD_NOTIFICATION ty ti msg))) \<le> 50"
    by (simp add: slice_from_0 Let_def)
  show "read (hd (notifications (appReducer c s (ADD_NOTIFICATION ty ti msg)))) = False"
    by (simp add: slice_from_0 Let_def)
qed

theorem C8_notifications_bounded_witness:
  "length (notifications (initialState :: unit AppState)) \<le> 50
   \<and> length (notifications (dispatch_all (initialState :: unit AppState)
        [(\<lparr>date_now = 1700000000000, new_date = 1700000000001\<rparr>,
          ADD_NOTIFICATION Info (js_of ''a'') (js_of ''b'')),
         (\<lparr>date_now = 1700000000002, new_date = 1700000000002\<rparr>, TOGGLE_SIDEBAR)])) \<le> 50"
  using C8_notifications_bounded [of
        "[(\<lparr>date_now = 1700000000000, new_date = 1700000000001\<rparr>,
           ADD_NOTIFICATION Info (js_of ''a'') (js_of ''b'')),
          (\<lparr>date_now = 1700000000002, new_date = 1700000000002\<rparr>, TOGGLE_SIDEBAR)]"
        "initialState :: unit AppState"]
  by (simp add: initialState_def)

text \<open>
  C9. \<open>MARK_NOTIFICATION_READ\<close> keeps the length and the order of the list; at every
  position the id, type, title, message and timestamp are as before, and \<open>read\<close> is true
  when the id is the given one and as before otherwise, so a notification with another
  id is unchanged. The other fields of the state are unchanged, and when no notification
  has the given id, the state is.
\<close>

theorem C9_mark_notification_read:
  assumes "s' = appReducer c s (MARK_NOTIFICATION_READ i)"
  shows "length (notifications s') = length (notifications s)
   \<and> (\<forall>k < length (notifications s).
         id_n (notifications s' ! k) = id_n (notifications s ! k)
       \<and> type_n (notifications s' ! k) = type_n (notifications s ! k)
       \<and> title (notifications s' ! k) = title (notifications s ! k)
       \<and> message (notifications s' ! k) = message (notifications s ! k)
       \<and> timestamp (notifications s' ! k) = timestamp (notifications s ! k)
       \<and> read (notifications s' ! k) = (id_n (notifications s ! k) = i \<or> read (notifications s ! k))
       \<and> (id_n (notifications s ! k) \<noteq> i \<longrightarrow> notifications s' ! k = notifications s ! k))
   \<and> user s' = user s \<and> profile s' = profile s \<and> loading s' = loading s
   \<and> theme s' = theme s \<and> sidebarOpen s' = sidebarOpen s \<and> preferences s' = preferences s
   \<and> (i \<notin> id_n ` set (notifications s) \<longrightarrow> s' = s)"
proof -
  let ?f = "\<lambda>n. if id_n n = i then n\<lparr>read := True\<rparr> else n"
  have ns: "notifications s' = map ?f (notifications s)"
    using assms by simp
  have same: "map ?f xs = xs" if "i \<notin> id_n ` set xs" for xs :: "Notification list"
    using that by (induction xs) auto
  have unchanged: "s' = s" if "i \<notin> id_n ` set (notifications s)"
    using assms same [OF that] by simp
  show ?thesis
    using assms unchanged by (simp add: ns)
qed

theorem C9_mark_notification_read_witness:
  "appReducer \<lparr>date_now = 5, new_date = 5\<rparr>
     ((initialState :: unit AppState)\<lparr>notifications :=
        [\<lparr>id_n = js_of ''1'', type_n = Info, title = js_of ''t'', message = js_of ''m'',
          timestamp = 1, read = False\<rparr>,
         \<lparr>id_n = js_of ''2'', type_n = Error, title = js_of ''u'', message = js_of ''n'',
          timestamp = 2, read = False\<rparr>]\<rparr>)
     (MARK_NOTIFICATION_READ (js_of ''2''))
   = (initialState :: unit AppState)\<lparr>notifications :=
        [\<lparr>id_n = js_of ''1'', type_n = Info, title = js_of ''t'', message = js_of ''m'',
          timestamp = 1, read = False\<rparr>,
         \<lparr>id_n = js_of ''2'', type_n = Error, title = js_of ''u'', message = js_of ''n'',
          timestamp = 2, read = True\<rparr>]\<rparr>
   \<and> js_of ''9'' \<notin> id_n ` set [\<lparr>id_n = js_of ''1'', type_n = Info, title = js_of ''t'',
          message = js_of ''m'', timestamp = 1, read = False\<rparr>]
   \<and> appReducer \<lparr>date_now = 5, new_date = 5\<rparr>
     ((initialState :: unit AppState)\<lparr>notifications :=
        [\<lparr>id_n = js_of ''1'', type_n = Info, title = js_of ''t'', message = js_of ''m'',
          timestamp = 1, read = False\<rparr>]\<rparr>)
     (MARK_NOTIFICATION_READ (js_of ''9''))
   = (initialState :: unit AppState)\<lparr>notifications :=
        [\<lparr>id_n = js_of ''1'', type_n = Info, title = js_of ''t'', message = js_of ''m'',
          timestamp = 1, read = False\<rparr>]\<rparr>"
  using C9_mark_notification_read [OF refl, of "\<lparr>date_now = 5, new_date = 5\<rparr>"
      "(initialState :: unit AppState)\<lparr>notifications :=
        [\<lparr>id_n = js_of ''1'', type_n = Info, title = js_of ''t'', message = js_of ''m'',
          timestamp = 1, read = False\<rparr>]\<rparr>" "js_of ''9''"]
  by (simp add: js_of_def)

text \<open>
  C7. The key a user saves is written as typed, under \<open>luma_api_key\<close>, to the user's
  row of the profiles table and to the profile held by the page: no hash is computed.
\<close>

theorem C7_plain_text_key_stored:
  "map luma_api_key_p
     (fst (handleUpdateApiKey Stored (js_of ''2025-06-01T00:00:00.000Z'')
        ([sample_profile], sample_settings))) = [Some (js_of ''luma-key-123'')]
   \<and> map_option luma_api_key_p
     (profile_st (snd (handleUpdateApiKey Stored (js_of ''2025-06-01T00:00:00.000Z'')
        ([sample_profile], sample_settings)))) = Some (Some (js_of ''luma-key-123''))"
  by (simp add: handleUpdateApiKey_def update_profiles_def trim_def is_white_space_def
        sample_profile_def sample_settings_def js_of_def Let_def)

section \<open>Properties of the database functions\<close>

lemma sql_max_Max: "xs \<noteq> [] \<Longrightarrow> sql_max xs = Some (Max (set xs))"
proof (cases xs)
  case Nil
  assume "xs \<noteq> []"
  with Nil show ?thesis by simp
next
  case (Cons a as)
  then show ?thesis using Max.set_eq_fold [of a as] by simp
qed

lemma max_ordinal_empty: "[r \<leftarrow> tbl. project_id r = p] = [] \<Longrightarrow> max_ordinal tbl p = 0"
  by (simp add: max_ordinal_def coalesce_def)

lemma max_ordinal_Max:
  "[r \<leftarrow> tbl. project_id r = p] \<noteq> [] \<Longrightarrow>
   max_ordinal tbl p = Max (set (map ordinal [r \<leftarrow> tbl. project_id r = p]))"
proof -
  assume ne: "[r \<leftarrow> tbl. project_id r = p] \<noteq> []"
  then have "map ordinal [r \<leftarrow> tbl. project_id r = p] \<noteq> []" by simp
  then have "sql_max (map ordinal [r \<leftarrow> tbl. project_id r = p]) =
      Some (Max (set (map ordinal [r \<leftarrow> tbl. project_id r = p])))"
    by (rule sql_max_Max)
  then show ?thesis by (simp add: max_ordinal_def coalesce_def)
qed

lemma next_scene_ordinal_max: "next_scene_ordinal tbl p = int4_add (max_ordinal tbl p) 1"
  by (simp add: next_scene_ordinal_def max_ordinal_def)

lemma max_ordinal_int4:
  assumes "\<forall>r \<in> set tbl. int4 (ordinal r)"
  shows "int4 (max_ordinal tbl p)"
proof (cases "[r \<leftarrow> tbl. project_id r = p] = []")
  case True
  then show ?thesis by (simp add: max_ordinal_empty int4_def)
next
  case False
  let ?S = "set (map ordinal [r \<leftarrow> tbl. project_id r = p])"
  have fin: "finite ?S" by simp
  have ne: "?S \<noteq> {}" using False by (auto simp: filter_empty_conv)
  have "Max ?S \<in> ?S" using fin ne by (rule Max_in)
  then show ?thesis using assms False by (auto simp: max_ordinal_Max)
qed

text \<open>
  C1, as the code has it. \<open>next_scene_ordinal\<close> returns 1 when the project has no scene
  row at all, and otherwise one more than the greatest ordinal among all rows of the
  project, soft-deleted rows included, as long as that is below the greatest INTEGER;
  at the greatest INTEGER the addition raises. The result does not depend on
  \<open>deleted_at\<close>: setting or clearing it on any row changes nothing.
\<close>

theorem C1_next_scene_ordinal:
  assumes "\<forall>r \<in> set tbl. int4 (ordinal r)"
  shows "([r \<leftarrow> tbl. project_id r = p] = [] \<longrightarrow> next_scene_ordinal tbl p = Inr 1)
   \<and> ([r \<leftarrow> tbl. project_id r = p] \<noteq> [] \<and>
        Max (set (map ordinal [r \<leftarrow> tbl. project_id r = p])) < 2147483647 \<longrightarrow>
        next_scene_ordinal tbl p = Inr (Max (set (map ordinal [r \<leftarrow> tbl. project_id r = p])) + 1))
   \<and> ([r \<leftarrow> tbl. project_id r = p] \<noteq> [] \<and>
        Max (set (map ordinal [r \<leftarrow> tbl. project_id r = p])) = 2147483647 \<longrightarrow>
        next_scene_ordinal tbl p = Inl NumericValueOutOfRange)
   \<and> next_scene_ordinal (map (\<lambda>r. r\<lparr>deleted_at := d r\<rparr>) tbl) p = next_scene_ordinal tbl p"
proof (intro conjI impI)
  show "next_scene_ordinal tbl p = Inr 1" if "[r \<leftarrow> tbl. project_id r = p] = []"
    using that by (simp add: next_scene_ordinal_max max_ordinal_empty int4_add_def int4_def)
  have range: "int4 (max_ordinal tbl p)"
    using assms by (rule max_ordinal_int4)
  show "next_scene_ordinal tbl p = Inr (Max (set (map ordinal [r \<leftarrow> tbl. project_id r = p])) + 1)"
    if "[r \<leftarrow> tbl. project_id r = p] \<noteq> [] \<and>
        Max (set (map ordinal [r \<leftarrow> tbl. project_id r = p])) < 2147483647"
    using that range
    by (simp add: next_scene_ordinal_max max_ordinal_Max int4_add_def int4_def)
  show "next_scene_ordinal tbl p = Inl NumericValueOutOfRange"
    if "[r \<leftarrow> tbl. project_id r = p] \<noteq> [] \<and>
        Max (set (map ordinal [r \<leftarrow> tbl. project_id r = p])) = 2147483647"
    using that
    by (simp add: next_scene_ordinal_max max_ordinal_Max int4_add_def int4_def)
  have "map ordinal [r \<leftarrow> map (\<lambda>r. r\<lparr>deleted_at := d r\<rparr>) tbl. project_id r = p] =
        map ordinal [r \<leftarrow> tbl. project_id r = p]"
    by (induction tbl) simp_all
  then show "next_scene_ordinal (map (\<lambda>r. r\<lparr>deleted_at := d r\<rparr>) tbl) p = next_scene_ordinal tbl p"
    by (simp add: next_scene_ordinal_def)
qed

theorem C1_next_scene_ordinal_witness:
  "next_scene_ordinal [] ''p1'' = Inr 1
   \<and> next_scene_ordinal
        [sample_scene ''s1'' ''p1'' 3 (Some 1000), sample_scene ''s2'' ''p1'' 2 None,
         sample_scene ''s3'' ''p2'' 9 None] ''p1'' = Inr 4
   \<and> next_scene_ordinal [sample_scene ''s1'' ''p1'' 2147483647 None] ''p1''
       = Inl NumericValueOutOfRange"
proof -
  let ?t = "[sample_scene ''s1'' ''p1'' 3 (Some 1000), sample_scene ''s2'' ''p1'' 2 None,
             sample_scene ''s3'' ''p2'' 9 None]"
  let ?u = "[sample_scene ''s1'' ''p1'' 2147483647 None]"
  have wf: "\<forall>r \<in> set ?t. int4 (ordinal r)"
    by (simp add: sample_scene_def int4_def)
  have wf_u: "\<forall>r \<in> set ?u. int4 (ordinal r)"
    by (simp add: sample_scene_def int4_def)
  have "next_scene_ordinal [] ''p1'' = Inr 1"
    using C1_next_scene_ordinal [of "[]" "''p1''"] by simp
  moreover have "next_scene_ordinal ?t ''p1'' = Inr 4"
    using C1_next_scene_ordinal [OF wf, of "''p1''"] by (simp add: sample_scene_def)
  moreover have "next_scene_ordinal ?u ''p1'' = Inl NumericValueOutOfRange"
    using C1_next_scene_ordinal [OF wf_u, of "''p1''"] by (simp add: sample_scene_def)
  ultimately show ?thesis by simp
qed

text \<open>
  C1 as stated fails: a project whose only scene is soft-deleted, with ordinal 5, has no
  non-deleted scene, and the next ordinal is 6, not 1.
\<close>

theorem C1_counterexample:
  "[r \<leftarrow> [sample_scene ''s1'' ''p1'' 5 (Some 1000)]. project_id r = ''p1'' \<and> deleted_at r = None] = []
   \<and> next_scene_ordinal [sample_scene ''s1'' ''p1'' 5 (Some 1000)] ''p1'' = Inr 6
   \<and> next_scene_ordinal_spec [sample_scene ''s1'' ''p1'' 5 (Some 1000)] ''p1'' = Inr 1"
  by (simp add: next_scene_ordinal_def next_scene_ordinal_spec_def sample_scene_def
        coalesce_def int4_add_def int4_def)

text \<open>
  C5. When \<open>create_scene\<close> succeeds it adds exactly one row, the request's scene, with
  status queued, version 1 and no external-job id; the rows already stored, the profiles
  and the versions are untouched.
\<close>

theorem C5_new_scene_initial_state:
  assumes "create_scene db q = Inr db'"
  shows "\<exists>r. scenes db' = scenes db @ [r]
     \<and> id_s r = req_new_id q \<and> project_id r = req_project_id q
     \<and> status r = Some SceneQueued \<and> version r = Some 1 \<and> luma_job_id r = None
     \<and> profiles db' = profiles db \<and> scene_versions db' = scene_versions db"
  using assms
  by (auto simp: create_scene_def insert_scenes_def default_scene_def
           split: sum.splits if_splits)

theorem C5_new_scene_initial_state_witness:
  "\<exists>db'. create_scene sample_database (sample_request ''s1'' ''p1'') = Inr db'
     \<and> (\<exists>r. scenes db' = scenes sample_database @ [r]
          \<and> id_s r = ''s1'' \<and> project_id r = ''p1''
          \<and> status r = Some SceneQueued \<and> version r = Some 1 \<and> luma_job_id r = None)"
proof -
  have run: "create_scene sample_database (sample_request ''s1'' ''p1'') =
      Inr (sample_database\<lparr>scenes := [default_scene (sample_request ''s1'' ''p1'') 1]\<rparr>)"
    by (simp add: create_scene_def next_scene_ordinal_def insert_scenes_def coalesce_def
          int4_add_def int4_def sample_database_def sample_request_def default_scene_def)
  show ?thesis
    using C5_new_scene_initial_state [OF run] run
    by (simp add: sample_request_def)
qed

subsection \<open>Create-scene requests, interleaved and serial\<close>

lemma ordinal_le_max_ordinal:
  assumes "r \<in> set tbl" and "project_id r = p"
  shows "ordinal r \<le> max_ordinal tbl p"
proof -
  have ne: "[r \<leftarrow> tbl. project_id r = p] \<noteq> []"
    using assms by (auto simp: filter_empty_conv)
  have "ordinal r \<in> set (map ordinal [r \<leftarrow> tbl. project_id r = p])"
    using assms by auto
  then have "ordinal r \<le> Max (set (map ordinal [r \<leftarrow> tbl. project_id r = p]))"
    by (intro Max_ge) simp_all
  then show ?thesis by (simp add: max_ordinal_Max [OF ne])
qed

lemma max_ordinal_snoc:
  assumes "project_id r = p" and "ordinal r = max_ordinal tbl p + 1"
  shows "max_ordinal (tbl @ [r]) p = max_ordinal tbl p + 1"
proof (cases "[r \<leftarrow> tbl. project_id r = p] = []")
  case True
  then show ?thesis
    using assms by (simp add: max_ordinal_def coalesce_def)
next
  case False
  let ?old = "map ordinal [r \<leftarrow> tbl. project_id r = p]"
  have old: "max_ordinal tbl p = Max (set ?old)"
    using False by (rule max_ordinal_Max)
  have "[x \<leftarrow> tbl @ [r]. project_id x = p] \<noteq> []"
    using assms by simp
  then have "max_ordinal (tbl @ [r]) p = Max (set (map ordinal [x \<leftarrow> tbl @ [r]. project_id x = p]))"
    by (rule max_ordinal_Max)
  also have "\<dots> = Max (insert (ordinal r) (set ?old))"
    using assms by simp
  also have "\<dots> = max (ordinal r) (Max (set ?old))"
    using False by (intro Max_insert) (auto simp: filter_empty_conv)
  finally show ?thesis using assms old by simp
qed

lemma max_ordinal_snoc_other:
  "project_id r \<noteq> p \<Longrightarrow> max_ordinal (tbl @ [r]) p = max_ordinal tbl p"
  by (simp add: max_ordinal_def)

lemma create_steps:
  assumes wf: "\<forall>r \<in> set (scenes db). int4 (ordinal r)"
    and k: "k < length reqs"
    and fk: "req_user_id (reqs ! k) \<in> id_pr ` set (profiles db)"
    and fresh: "req_new_id (reqs ! k) \<notin> id_s ` set (scenes db)"
    and room: "max_ordinal (scenes db) (req_project_id (reqs ! k)) + 1 \<le> 2147483647"
  shows "run_schedule reqs (db, al) (Allocate k # Insert k # es) =
         run_schedule reqs
           (db\<lparr>scenes := scenes db @
              [default_scene (reqs ! k) (max_ordinal (scenes db) (req_project_id (reqs ! k)) + 1)]\<rparr>,
            al(k \<mapsto> max_ordinal (scenes db) (req_project_id (reqs ! k)) + 1)) es"
proof -
  let ?m = "max_ordinal (scenes db) (req_project_id (reqs ! k))"
  have "int4 ?m" using wf by (rule max_ordinal_int4)
  then have range: "int4 (?m + 1)" using room by (simp add: int4_def)
  then have alloc: "next_scene_ordinal (scenes db) (req_project_id (reqs ! k)) = Inr (?m + 1)"
    by (simp add: next_scene_ordinal_max int4_add_def)
  have ins: "insert_scenes db (default_scene (reqs ! k) (?m + 1)) =
      Inr (db\<lparr>scenes := scenes db @ [default_scene (reqs ! k) (?m + 1)]\<rparr>)"
    using range fk fresh by (simp add: insert_scenes_def default_scene_def int4_def)
  show ?thesis using k alloc ins by simp
qed

lemma serial_run:
  assumes "\<forall>r \<in> set (scenes db). int4 (ordinal r)"
    and "\<forall>k \<in> set ks. k < length reqs \<and> req_project_id (reqs ! k) = p
           \<and> req_user_id (reqs ! k) \<in> id_pr ` set (profiles db)"
    and "distinct (map (\<lambda>k. req_new_id (reqs ! k)) ks)"
    and "\<forall>k \<in> set ks. req_new_id (reqs ! k) \<notin> id_s ` set (scenes db)"
    and "max_ordinal (scenes db) p + int (length ks) \<le> 2147483647"
  shows "\<exists>db' al' rows. run_schedule reqs (db, al) (serial ks) = Inr (db', al')
     \<and> scenes db' = scenes db @ rows
     \<and> map ordinal rows = map (\<lambda>i. max_ordinal (scenes db) p + 1 + int i) [0..<length ks]"
  using assms
proof (induction ks arbitrary: db al)
  case Nil
  then show ?case by (simp add: serial_def)
next
  case (Cons k ks)
  let ?m = "max_ordinal (scenes db) p"
  let ?row = "default_scene (reqs ! k) (?m + 1)"
  let ?db1 = "db\<lparr>scenes := scenes db @ [?row]\<rparr>"
  have k: "k < length reqs" and proj: "req_project_id (reqs ! k) = p"
    and fk: "req_user_id (reqs ! k) \<in> id_pr ` set (profiles db)"
    using Cons.prems(2) by simp_all
  have fresh: "req_new_id (reqs ! k) \<notin> id_s ` set (scenes db)"
    using Cons.prems(4) by simp
  have room: "?m + 1 \<le> 2147483647"
    using Cons.prems(5) by simp
  have step: "run_schedule reqs (db, al) (serial (k # ks)) =
      run_schedule reqs (?db1, al(k \<mapsto> ?m + 1)) (serial ks)"
    using create_steps [OF Cons.prems(1) k fk fresh, of al "serial ks"] room proj
    by (simp add: serial_def)
  have row_p: "project_id ?row = p" and row_ord: "ordinal ?row = ?m + 1"
    and row_id: "id_s ?row = req_new_id (reqs ! k)"
    using proj by (simp_all add: default_scene_def)
  have m1: "max_ordinal (scenes ?db1) p = ?m + 1"
    using max_ordinal_snoc [OF row_p row_ord] by simp
  have "int4 ?m" using Cons.prems(1) by (rule max_ordinal_int4)
  then have wf1: "\<forall>r \<in> set (scenes ?db1). int4 (ordinal r)"
    using Cons.prems(1) room row_ord by (simp add: int4_def)
  have ks1: "\<forall>j \<in> set ks. j < length reqs \<and> req_project_id (reqs ! j) = p
           \<and> req_user_id (reqs ! j) \<in> id_pr ` set (profiles ?db1)"
    using Cons.prems(2) by simp
  have dist1: "distinct (map (\<lambda>k. req_new_id (reqs ! k)) ks)"
    using Cons.prems(3) by simp
  have fresh1: "\<forall>j \<in> set ks. req_new_id (reqs ! j) \<notin> id_s ` set (scenes ?db1)"
  proof
    fix j assume j: "j \<in> set ks"
    then have "req_new_id (reqs ! j) \<in> (\<lambda>k. req_new_id (reqs ! k)) ` set ks" by (rule imageI)
    moreover have "req_new_id (reqs ! k) \<notin> (\<lambda>k. req_new_id (reqs ! k)) ` set ks"
      using Cons.prems(3) by simp
    ultimately have "req_new_id (reqs ! j) \<noteq> req_new_id (reqs ! k)" by metis
    moreover have "req_new_id (reqs ! j) \<notin> id_s ` set (scenes db)"
      using Cons.prems(4) j by simp
    ultimately show "req_new_id (reqs ! j) \<notin> id_s ` set (scenes ?db1)"
      using row_id by simp
  qed
  have room1: "max_ordinal (scenes ?db1) p + int (length ks) \<le> 2147483647"
    using Cons.prems(5) m1 by simp
  obtain db' al' rows where
    run: "run_schedule reqs (?db1, al(k \<mapsto> ?m + 1)) (serial ks) = Inr (db', al')"
    and sc: "scenes db' = scenes ?db1 @ rows"
    and ords: "map ordinal rows = map (\<lambda>i. max_ordinal (scenes ?db1) p + 1 + int i) [0..<length ks]"
    using Cons.IH [OF wf1 ks1 dist1 fresh1 room1, of "al(k \<mapsto> ?m + 1)"] by blast
  have ords': "map ordinal (?row # rows) = map (\<lambda>i. ?m + 1 + int i) [0..<length (k # ks)]"
    using ords m1 row_ord by (simp add: map_upt_Suc del: upt_Suc)
  have sc': "scenes db' = scenes db @ (?row # rows)"
    using sc by simp
  have final: "run_schedule reqs (db, al) (serial (k # ks)) = Inr (db', al')"
    using step run by simp
  show ?case
  proof (intro exI conjI)
    show "run_schedule reqs (db, al) (serial (k # ks)) = Inr (db', al')" by (rule final)
    show "scenes db' = scenes db @ (?row # rows)" by (rule sc')
    show "map ordinal (?row # rows) = map (\<lambda>i. ?m + 1 + int i) [0..<length (k # ks)]"
      by (rule ords')
  qed
qed

text \<open>
  C2, as the model has it. When the requests run one after the other, each allocation
  directly followed by its insert, every request succeeds and the ordinals of the new
  scenes are \<open>m + 1, \<dots>, m + N\<close> for the greatest ordinal \<open>m\<close> of the project before
  (0 without rows): pairwise distinct, different from every ordinal the project already
  had, and exactly \<open>1, \<dots>, N\<close> when the project had no row. The hypotheses say that the
  table is well-typed, that the requests are for one project and come from users with a
  profile, that the ids drawn for the rows are new, and that the INTEGER range is not
  exhausted.
\<close>

theorem C2_serial_creates_distinct:
  assumes "\<forall>r \<in> set (scenes db). int4 (ordinal r)"
    and "\<forall>k \<in> set ks. k < length reqs \<and> req_project_id (reqs ! k) = p
           \<and> req_user_id (reqs ! k) \<in> id_pr ` set (profiles db)"
    and "distinct (map (\<lambda>k. req_new_id (reqs ! k)) ks)"
    and "\<forall>k \<in> set ks. req_new_id (reqs ! k) \<notin> id_s ` set (scenes db)"
    and "max_ordinal (scenes db) p + int (length ks) \<le> 2147483647"
  shows "schedule_ordinals reqs db (serial ks) =
           Inr (map (\<lambda>i. max_ordinal (scenes db) p + 1 + int i) [0..<length ks])
     \<and> distinct (map (\<lambda>i. max_ordinal (scenes db) p + 1 + int i) [0..<length ks])
     \<and> (\<forall>r \<in> set (scenes db). project_id r = p \<longrightarrow>
           ordinal r \<notin> set (map (\<lambda>i. max_ordinal (scenes db) p + 1 + int i) [0..<length ks]))
     \<and> ([r \<leftarrow> scenes db. project_id r = p] = [] \<longrightarrow>
           schedule_ordinals reqs db (serial ks) = Inr (map int [1..<length ks + 1]))"
proof -
  let ?m = "max_ordinal (scenes db) p"
  let ?ns = "map (\<lambda>i. ?m + 1 + int i) [0..<length ks]"
  obtain db' al' rows where
    run: "run_schedule reqs (db, Map.empty) (serial ks) = Inr (db', al')"
    and sc: "scenes db' = scenes db @ rows"
    and ords: "map ordinal rows = ?ns"
    using serial_run [OF assms, of Map.empty] by blast
  have res: "schedule_ordinals reqs db (serial ks) = Inr ?ns"
    using run sc ords by (simp add: schedule_ordinals_def new_ordinals_def)
  have dist: "distinct ?ns"
    by (simp add: distinct_map inj_on_def)
  have old: "ordinal r \<notin> set ?ns" if "r \<in> set (scenes db)" and "project_id r = p" for r
    using ordinal_le_max_ordinal [OF that] by auto
  have empty: "?ns = map int [1..<length ks + 1]" if "[r \<leftarrow> scenes db. project_id r = p] = []"
  proof -
    have "?m = 0" using that by (rule max_ordinal_empty)
    then have "?ns = map (\<lambda>i. int (Suc i)) [0..<length ks]" by simp
    also have "\<dots> = map int (map Suc [0..<length ks])" by simp
    also have "\<dots> = map int [1..<length ks + 1]" by (simp only: map_Suc_upt) simp
    finally show ?thesis .
  qed
  show ?thesis
  proof (intro conjI ballI impI)
    show "schedule_ordinals reqs db (serial ks) = Inr ?ns" by (rule res)
    show "distinct ?ns" by (rule dist)
    show "ordinal r \<notin> set ?ns" if "r \<in> set (scenes db)" and "project_id r = p" for r
      using that by (rule old)
    show "schedule_ordinals reqs db (serial ks) = Inr (map int [1..<length ks + 1])"
      if "[r \<leftarrow> scenes db. project_id r = p] = []"
      using res empty [OF that] by simp
  qed
qed

theorem C2_serial_creates_distinct_witness:
  "schedule_ordinals [sample_request ''s1'' ''p1'', sample_request ''s2'' ''p1'']
     sample_database (serial [0, 1]) = Inr [1, 2]"
proof -
  let ?reqs = "[sample_request ''s1'' ''p1'', sample_request ''s2'' ''p1'']"
  have wf: "\<forall>r \<in> set (scenes sample_database). int4 (ordinal r)"
    by (simp add: sample_database_def)
  have ks: "\<forall>k \<in> set [0, 1]. k < length ?reqs \<and> req_project_id (?reqs ! k) = ''p1''
           \<and> req_user_id (?reqs ! k) \<in> id_pr ` set (profiles sample_database)"
    by (simp add: sample_database_def sample_request_def)
  have dist: "distinct (map (\<lambda>k. req_new_id (?reqs ! k)) [0, 1])"
    by (simp add: sample_request_def)
  have fresh: "\<forall>k \<in> set [0, 1]. req_new_id (?reqs ! k) \<notin> id_s ` set (scenes sample_database)"
    by (simp add: sample_database_def)
  have none: "[r \<leftarrow> scenes sample_database. project_id r = ''p1''] = []"
    by (simp add: sample_database_def)
  have room: "max_ordinal (scenes sample_database) ''p1'' + int (length [0::nat, 1]) \<le> 2147483647"
    by (simp add: max_ordinal_empty [OF none])
  have "schedule_ordinals ?reqs sample_database (serial [0, 1]) =
      Inr (map int [1..<length [0::nat, 1] + 1])"
    using C2_serial_creates_distinct [OF wf ks dist fresh room] none by blast
  then show ?thesis
    by (simp add: upt_rec)
qed

text \<open>
  C2 as stated fails: two requests for one project of an empty database, interleaved so
  that both allocate before either inserts, both get ordinal 1.
\<close>

theorem C2_counterexample:
  "schedule_ordinals [sample_request ''s1'' ''p1'', sample_request ''s2'' ''p1'']
     sample_database [Allocate 0, Allocate 1, Insert 0, Insert 1] = Inr [1, 1]"
  by (simp add: schedule_ordinals_def new_ordinals_def next_scene_ordinal_def
        insert_scenes_def coalesce_def int4_add_def int4_def sample_database_def
        sample_request_def default_scene_def)

subsection \<open>The version store\<close>

lemma versions_of_scenes_update [simp]:
  "versions_of (db\<lparr>scenes := tbl\<rparr>) sid = versions_of db sid"
  by (simp add: versions_of_def)

lemma create_scene_Inr:
  assumes "create_scene db q = Inr db'"
  shows "\<exists>n. db' = db\<lparr>scenes := scenes db @ [default_scene q n]\<rparr>"
    and "req_new_id q \<notin> id_s ` set (scenes db)"
  using assms
  by (auto simp: create_scene_def insert_scenes_def default_scene_def
           split: sum.splits if_splits)

lemma version_append_Inr:
  assumes "version_append db sid e m meta i t = Inr res"
  shows "sid \<in> id_s ` set (scenes db)"
    and "e = int (length (versions_of db sid))"
    and "fst res =
      db\<lparr>scene_versions := scene_versions db @
             [\<lparr> id_v = i, scene_id_v = sid, version_v = e + 1, video_url_v = Some m,
                render_meta_v = Some meta, created_at_v = Some t \<rparr>],
          scenes := map (\<lambda>r. if id_s r = sid
                              then r\<lparr>version := Some (e + 1), updated_at := Some t\<rparr>
                              else r) (scenes db)\<rparr>"
  using assms
  by (auto simp: version_append_def insert_scene_versions_def
           split: sum.splits if_splits)

lemma store_inv_initial: "scenes db = [] \<Longrightarrow> scene_versions db = [] \<Longrightarrow> store_inv db"
  by (simp add: store_inv_def)

lemma store_inv_create:
  assumes inv: "store_inv db" and run: "create_scene db q = Inr db'"
  shows "store_inv db'"
proof -
  obtain n where db': "db' = db\<lparr>scenes := scenes db @ [default_scene q n]\<rparr>"
    using create_scene_Inr(1) [OF run] by blast
  have fresh: "req_new_id q \<notin> id_s ` set (scenes db)"
    using create_scene_Inr(2) [OF run] .
  have refs: "\<forall>v \<in> set (scene_versions db). scene_id_v v \<in> id_s ` set (scenes db)"
    using inv by (simp add: store_inv_def list_all_iff)
  have "\<forall>v \<in> set (scene_versions db). scene_id_v v \<noteq> req_new_id q"
    using refs fresh by metis
  then have none: "versions_of db (req_new_id q) = []"
    by (simp add: versions_of_def filter_empty_conv)
  have new_id: "id_s (default_scene q n) = req_new_id q"
    and new_version: "version (default_scene q n) = Some 1"
    by (simp_all add: default_scene_def)
  show ?thesis
    using inv fresh none new_id new_version
    by (auto simp: store_inv_def db' list_all_iff)
qed

lemma store_inv_append:
  assumes inv: "store_inv db" and run: "version_append db sid e m meta i t = Inr res"
  shows "store_inv (fst res)"
proof -
  let ?v = "\<lparr> id_v = i, scene_id_v = sid, version_v = e + 1, video_url_v = Some m,
              render_meta_v = Some meta, created_at_v = Some t \<rparr>"
  let ?g = "\<lambda>r. if id_s r = sid then r\<lparr>version := Some (e + 1), updated_at := Some t\<rparr> else r"
  have known: "sid \<in> id_s ` set (scenes db)"
    and e: "e = int (length (versions_of db sid))"
    and res: "fst res = db\<lparr>scene_versions := scene_versions db @ [?v],
                           scenes := map ?g (scenes db)\<rparr>"
    using version_append_Inr [OF run] by simp_all
  have sc: "scenes (fst res) = map ?g (scenes db)"
    by (simp add: res)
  have ids: "map id_s (map ?g xs) = map id_s xs" for xs
    by (induction xs) simp_all
  have id_set: "id_s ` set (map ?g (scenes db)) = id_s ` set (scenes db)"
    using ids [of "scenes db"] by (metis list.set_map)
  have vs: "versions_of (fst res) x = versions_of db x @ (if x = sid then [?v] else [])" for x
    by (simp add: res versions_of_def)
  have "distinct (map id_s (scenes db))"
    using inv by (simp add: store_inv_def)
  then have d: "distinct (map id_s (scenes (fst res)))"
    unfolding sc ids .
  have refs: "list_all (\<lambda>v. scene_id_v v \<in> id_s ` set (scenes (fst res))) (scene_versions (fst res))"
    using inv known id_set by (simp add: store_inv_def res list_all_iff)
  have rows: "map version_v (versions_of (fst res) (id_s r')) =
                map int [1..<length (versions_of (fst res) (id_s r')) + 1]
            \<and> version r' = Some (max 1 (int (length (versions_of (fst res) (id_s r')))))"
    if "r' \<in> set (scenes (fst res))" for r'
  proof -
    have "r' \<in> ?g ` set (scenes db)"
      using that unfolding sc by simp
    then obtain r where r: "r \<in> set (scenes db)" and r': "r' = ?g r"
      by blast
    have old: "map version_v (versions_of db (id_s r)) =
                 map int [1..<length (versions_of db (id_s r)) + 1]"
      and cnt: "version r = Some (max 1 (int (length (versions_of db (id_s r)))))"
      using inv r by (simp_all add: store_inv_def list_all_iff)
    show ?thesis
    proof (cases "id_s r = sid")
      case True
      then show ?thesis using old e by (simp add: r' vs)
    next
      case False
      then show ?thesis using old cnt by (simp add: r' vs)
    qed
  qed
  show ?thesis
    using d refs rows by (simp add: store_inv_def list_all_iff)
qed

lemma store_inv_write:
  assumes inv: "store_inv db" and run: "write_scene db sid f t = Inr db'"
  shows "store_inv db'"
proof -
  let ?g = "\<lambda>r. if id_s r = sid
                 then r\<lparr>luma_job_id := luma_job_id (f r), luma_status := luma_status (f r),
                        luma_error := luma_error (f r), status := status (f r),
                        deleted_at := deleted_at (f r), updated_at := Some t\<rparr>
                 else r"
  have db': "db' = db\<lparr>scenes := map ?g (scenes db)\<rparr>"
    using run by (simp add: write_scene_def split: if_splits)
  have sc: "scenes db' = map ?g (scenes db)"
    by (simp add: db')
  have ids: "map id_s (map ?g xs) = map id_s xs" for xs
    by (induction xs) simp_all
  have id_set: "id_s ` set (map ?g (scenes db)) = id_s ` set (scenes db)"
    using ids [of "scenes db"] by (metis list.set_map)
  have "distinct (map id_s (scenes db))"
    using inv by (simp add: store_inv_def)
  then have d: "distinct (map id_s (scenes db'))"
    unfolding sc ids .
  have refs: "list_all (\<lambda>v. scene_id_v v \<in> id_s ` set (scenes db')) (scene_versions db')"
    using inv id_set by (simp add: store_inv_def db' list_all_iff)
  have rows: "map version_v (versions_of db' (id_s r')) =
                map int [1..<length (versions_of db' (id_s r')) + 1]
            \<and> version r' = Some (max 1 (int (length (versions_of db' (id_s r')))))"
    if "r' \<in> set (scenes db')" for r'
  proof -
    have "r' \<in> ?g ` set (scenes db)"
      using that unfolding sc by simp
    then obtain r where r: "r \<in> set (scenes db)" and r': "r' = ?g r"
      by blast
    have old: "map version_v (versions_of db (id_s r)) =
            map int [1..<length (versions_of db (id_s r)) + 1]
         \<and> version r = Some (max 1 (int (length (versions_of db (id_s r)))))"
      using inv r unfolding store_inv_def list_all_iff by blast
    have g_id: "id_s (?g r) = id_s r" and g_version: "version (?g r) = version r"
      by simp_all
    have vs: "versions_of db' x = versions_of db x" for x
      by (simp add: db')
    show ?thesis
      unfolding r' g_id g_version vs using old .
  qed
  show ?thesis
    using d refs rows by (simp add: store_inv_def list_all_iff)
qed

lemma store_inv_delete:
  assumes inv: "store_inv db" and run: "delete_scene db sid = Inr db'"
  shows "store_inv db'"
proof -
  have db': "db' = db\<lparr>scenes := [r \<leftarrow> scenes db. id_s r \<noteq> sid],
                       scene_versions := [v \<leftarrow> scene_versions db. scene_id_v v \<noteq> sid]\<rparr>"
    using run by (simp add: delete_scene_def split: if_splits)
  have d: "distinct (map id_s (scenes db'))"
    using inv by (simp add: store_inv_def db' distinct_map_filter)
  have refs: "list_all (\<lambda>v. scene_id_v v \<in> id_s ` set (scenes db')) (scene_versions db')"
    using inv by (auto simp: store_inv_def db' list_all_iff)
  have vs: "versions_of db' x = versions_of db x" if "x \<noteq> sid" for x
  proof -
    have "[v \<leftarrow> [v \<leftarrow> tbl. scene_id_v v \<noteq> sid]. scene_id_v v = x] = [v \<leftarrow> tbl. scene_id_v v = x]"
      for tbl :: "scene_versions_row list"
      using that by (induction tbl) auto
    then show ?thesis by (simp add: versions_of_def db')
  qed
  have rows: "map version_v (versions_of db' (id_s r)) =
                map int [1..<length (versions_of db' (id_s r)) + 1]
            \<and> version r = Some (max 1 (int (length (versions_of db' (id_s r)))))"
    if "r \<in> set (scenes db')" for r
  proof -
    have r: "r \<in> set (scenes db)" and ne: "id_s r \<noteq> sid"
      using that by (simp_all add: db')
    have old: "map version_v (versions_of db (id_s r)) =
            map int [1..<length (versions_of db (id_s r)) + 1]
         \<and> version r = Some (max 1 (int (length (versions_of db (id_s r)))))"
      using inv r unfolding store_inv_def list_all_iff by blast
    show ?thesis
      unfolding vs [OF ne] using old .
  qed
  show ?thesis
    using d refs rows by (simp add: store_inv_def list_all_iff)
qed

lemma store_inv_apply_op: "store_inv db \<Longrightarrow> store_inv (apply_op db op)"
proof (cases op)
  case (CreateScene q)
  assume "store_inv db"
  then show ?thesis
    using CreateScene store_inv_create [of db q]
    by (simp add: apply_op_def split: sum.splits)
next
  case (AppendVersion sid e m meta i t)
  assume "store_inv db"
  then show ?thesis
    using AppendVersion store_inv_append [of db sid e m meta i t]
    by (simp add: apply_op_def split: sum.splits)
next
  case (WriteScene sid f t)
  assume "store_inv db"
  then show ?thesis
    using WriteScene store_inv_write [of db sid f t]
    by (simp add: apply_op_def split: sum.splits)
next
  case (DeleteScene sid)
  assume "store_inv db"
  then show ?thesis
    using DeleteScene store_inv_delete [of db sid]
    by (simp add: apply_op_def split: sum.splits)
qed

lemma store_inv_run_ops: "store_inv db \<Longrightarrow> store_inv (run_ops db ops)"
  unfolding run_ops_def
  by (induction ops arbitrary: db) (simp_all add: store_inv_apply_op)

lemma apply_op_keeps_versions:
  assumes "sid \<in> id_s ` set (scenes (apply_op db op))"
  shows "take (length (versions_of db sid)) (versions_of (apply_op db op) sid) = versions_of db sid"
proof (cases "step db op")
  case (Inl err)
  then show ?thesis by (simp add: apply_op_def)
next
  case (Inr db')
  then have ap: "apply_op db op = db'" by (simp add: apply_op_def)
  show ?thesis
  proof (cases op)
    case (CreateScene q)
    then have "create_scene db q = Inr db'" using Inr by simp
    then obtain n where "db' = db\<lparr>scenes := scenes db @ [default_scene q n]\<rparr>"
      using create_scene_Inr(1) by blast
    then show ?thesis by (simp add: ap)
  next
    case (AppendVersion s e m meta i t)
    then obtain res where run: "version_append db s e m meta i t = Inr res" and "db' = fst res"
      using Inr by (auto split: sum.splits)
    then show ?thesis
      using version_append_Inr(3) [OF run] by (simp add: ap versions_of_def)
  next
    case (WriteScene s f t)
    then have "write_scene db s f t = Inr db'" using Inr by simp
    then show ?thesis
      by (auto simp: ap write_scene_def split: if_splits)
  next
    case (DeleteScene s)
    then have run: "delete_scene db s = Inr db'" using Inr by simp
    then have db': "db' = db\<lparr>scenes := [r \<leftarrow> scenes db. id_s r \<noteq> s],
                       scene_versions := [v \<leftarrow> scene_versions db. scene_id_v v \<noteq> s]\<rparr>"
      by (simp add: delete_scene_def split: if_splits)
    have ne: "sid \<noteq> s" using assms by (auto simp: ap db')
    have "[v \<leftarrow> [v \<leftarrow> tbl. scene_id_v v \<noteq> s]. scene_id_v v = sid] = [v \<leftarrow> tbl. scene_id_v v = sid]"
      for tbl :: "scene_versions_row list"
      using ne by (induction tbl) auto
    then show ?thesis by (simp add: ap db' versions_of_def)
  qed
qed

text \<open>
  C3, as the model has it. In every state reached from a database without scenes, the
  version numbers of each scene are \<open>1, \<dots>, k\<close> in the order of insertion, \<open>k\<close> the
  number of its version records: no gap and no duplicate. As soon as the scene has a
  version, \<open>k\<close> is the scene's current version number; a scene without a version record
  has current version number 1. No operation changes or removes a version record of a
  scene that is still stored: the versions a scene had are the first of those it has
  afterwards.
\<close>

theorem C3_versions_gapless_append_only:
  "(scenes db0 = [] \<and> scene_versions db0 = [] \<longrightarrow>
      (\<forall>r \<in> set (scenes (run_ops db0 ops)).
          map version_v (versions_of (run_ops db0 ops) (id_s r)) =
            map int [1..<length (versions_of (run_ops db0 ops) (id_s r)) + 1]
        \<and> distinct (map version_v (versions_of (run_ops db0 ops) (id_s r)))
        \<and> (versions_of (run_ops db0 ops) (id_s r) \<noteq> [] \<longrightarrow>
             version r = Some (int (length (versions_of (run_ops db0 ops) (id_s r)))))
        \<and> (versions_of (run_ops db0 ops) (id_s r) = [] \<longrightarrow> version r = Some 1)))
   \<and> (\<forall>sid \<in> id_s ` set (scenes (apply_op db op)).
         take (length (versions_of db sid)) (versions_of (apply_op db op) sid) = versions_of db sid)"
proof (intro conjI impI ballI)
  fix r
  assume init: "scenes db0 = [] \<and> scene_versions db0 = []"
    and r: "r \<in> set (scenes (run_ops db0 ops))"
  let ?db = "run_ops db0 ops"
  let ?vs = "versions_of ?db (id_s r)"
  have "store_inv db0" using init by (simp add: store_inv_initial)
  then have "store_inv ?db" by (rule store_inv_run_ops)
  then have nums: "map version_v ?vs = map int [1..<length ?vs + 1]"
    and cnt: "version r = Some (max 1 (int (length ?vs)))"
    using r unfolding store_inv_def list_all_iff by blast+
  show "map version_v ?vs = map int [1..<length ?vs + 1]" by (rule nums)
  have "distinct (map int [1..<length ?vs + 1])"
    by (simp add: distinct_map inj_on_def)
  then show "distinct (map version_v ?vs)" by (simp only: nums)
  show "version r = Some (int (length ?vs))" if "?vs \<noteq> []"
  proof -
    have "1 \<le> length ?vs" using that by (cases ?vs) simp_all
    then show ?thesis using cnt by simp
  qed
  show "version r = Some 1" if "?vs = []"
    using cnt that by simp
next
  fix sid
  assume "sid \<in> id_s ` set (scenes (apply_op db op))"
  then show "take (length (versions_of db sid)) (versions_of (apply_op db op) sid) = versions_of db sid"
    by (rule apply_op_keeps_versions)
qed

theorem C3_versions_gapless_append_only_witness:
  "scenes sample_database = [] \<and> scene_versions sample_database = []
   \<and> map version_v (versions_of
        (run_ops sample_database
           [CreateScene (sample_request ''s1'' ''p1''),
            AppendVersion ''s1'' 0 ''m1'' ''{}'' ''v1'' 20,
            AppendVersion ''s1'' 1 ''m2'' ''{}'' ''v2'' 30,
            AppendVersion ''s1'' 1 ''m2'' ''{}'' ''v3'' 31]) ''s1'') = [1, 2]
   \<and> map version (scenes
        (run_ops sample_database
           [CreateScene (sample_request ''s1'' ''p1''),
            AppendVersion ''s1'' 0 ''m1'' ''{}'' ''v1'' 20,
            AppendVersion ''s1'' 1 ''m2'' ''{}'' ''v2'' 30,
            AppendVersion ''s1'' 1 ''m2'' ''{}'' ''v3'' 31])) = [Some 2]"
proof -
  let ?ops = "[CreateScene (sample_request ''s1'' ''p1''),
            AppendVersion ''s1'' 0 ''m1'' ''{}'' ''v1'' 20,
            AppendVersion ''s1'' 1 ''m2'' ''{}'' ''v2'' 30,
            AppendVersion ''s1'' 1 ''m2'' ''{}'' ''v3'' 31]"
  have init: "scenes sample_database = [] \<and> scene_versions sample_database = []"
    by (simp add: sample_database_def)
  have run: "run_ops sample_database ?ops =
      sample_database\<lparr>
        scenes := [(default_scene (sample_request ''s1'' ''p1'') 1)
                     \<lparr>version := Some 2, updated_at := Some 30\<rparr>],
        scene_versions :=
          [\<lparr> id_v = ''v1'', scene_id_v = ''s1'', version_v = 1, video_url_v = Some ''m1'',
              render_meta_v = Some ''{}'', created_at_v = Some 20 \<rparr>,
           \<lparr> id_v = ''v2'', scene_id_v = ''s1'', version_v = 2, video_url_v = Some ''m2'',
              render_meta_v = Some ''{}'', created_at_v = Some 30 \<rparr>]\<rparr>"
    by (simp add: run_ops_def apply_op_def create_scene_def version_append_def
          insert_scene_versions_def insert_scenes_def versions_of_def next_scene_ordinal_def
          coalesce_def int4_add_def int4_def sample_database_def sample_request_def
          default_scene_def)
  have r: "(default_scene (sample_request ''s1'' ''p1'') 1)\<lparr>version := Some 2, updated_at := Some 30\<rparr>
      \<in> set (scenes (run_ops sample_database ?ops))"
    by (simp add: run)
  have vs: "map version_v (versions_of (run_ops sample_database ?ops) ''s1'') = [1, 2]"
    by (simp add: run versions_of_def)
  have "versions_of (run_ops sample_database ?ops) ''s1'' \<noteq> []"
    using vs by auto
  then have "map version (scenes (run_ops sample_database ?ops)) = [Some 2]"
    using C3_versions_gapless_append_only [of sample_database ?ops] init r
    by (simp add: run)
  then show ?thesis using init vs by simp
qed

text \<open>
  C3 as stated fails for a scene that has just been created: its current version number
  is 1 and it has no version record, so its records are not the sequence from 1 to the
  current version.
\<close>

theorem C3_counterexample:
  "map version (scenes (run_ops sample_database [CreateScene (sample_request ''s1'' ''p1'')]))
     = [Some 1]
   \<and> versions_of (run_ops sample_database [CreateScene (sample_request ''s1'' ''p1'')]) ''s1''
     = []"
  by (simp add: run_ops_def apply_op_def create_scene_def insert_scenes_def versions_of_def
        next_scene_ordinal_def coalesce_def int4_add_def int4_def sample_database_def
        sample_request_def default_scene_def)

end
